theory Spec2Isabelle
  imports
    Complex_Main
    "HOL-Library.AList"
    "HOL-Library.Char_ord"
    "HOL-Library.List_Lexorder"
    "HOL-Library.Product_Lexorder"
    "HOL-Library.Multiset"
begin

section \<open>Dates and timestamps\<close>

text \<open>
  The scripts index every per-symbol frame by a pandas \<open>Timestamp\<close>: a calendar date
  together with a time of day.  A date is the triple (year, month, day); a timestamp pairs
  it with the time of day (counted in any fixed unit since midnight).  Both are ordered
  lexicographically, which is the chronological order.
\<close>

type_synonym date = "int \<times> nat \<times> nat"
type_synonym timestamp = "date \<times> nat"

text \<open>\<open>Timestamp.date()\<close>: the calendar date, the time of day dropped.\<close>

definition date_of :: "timestamp \<Rightarrow> date" where
  "date_of ts = fst ts"

text \<open>\<open>index.to_period('M')\<close>: the (year, month) a timestamp falls in.\<close>

definition to_period_M :: "timestamp \<Rightarrow> int \<times> nat" where
  "to_period_M ts = (case ts of ((y, m, d), t) \<Rightarrow> (y, m))"

definition is_leap :: "int \<Rightarrow> bool" where
  "is_leap y = (y mod 4 = 0 \<and> (y mod 100 \<noteq> 0 \<or> y mod 400 = 0))"

definition days_in_month :: "int \<Rightarrow> nat \<Rightarrow> nat" where
  "days_in_month y m =
     (if m = 2 then (if is_leap y then 29 else 28)
      else if m = 4 \<or> m = 6 \<or> m = 9 \<or> m = 11 then 30 else 31)"

text \<open>
  A date \<open>n\<close> days later, stepping month by month: within the month if the day fits,
  otherwise on from the first of the next month.
\<close>

function add_days_date :: "nat \<Rightarrow> date \<Rightarrow> date" where
  "add_days_date n (y, m, d) =
     (if n = 0 then (y, m, d)
      else if d + n \<le> days_in_month y m then (y, m, d + n)
      else add_days_date (n - (days_in_month y m - d + 1))
             (if m < 12 then (y, m + 1, 1) else (y + 1, 1, 1)))"
  by pat_completeness auto
termination
  by (relation "measure fst") auto

declare add_days_date.simps [simp del]

text \<open>\<open>ts + pd.Timedelta(days=n)\<close> for a whole number of days: the time of day is kept.\<close>

definition add_days :: "nat \<Rightarrow> timestamp \<Rightarrow> timestamp" where
  "add_days n ts = (add_days_date n (fst ts), snd ts)"

text \<open>
  \<open>ts - relativedelta(months=k)\<close>: the month moves back \<open>k\<close> calendar months, the day is
  clipped to the length of the month reached, the time of day is kept.
\<close>

definition sub_months :: "nat \<Rightarrow> timestamp \<Rightarrow> timestamp" where
  "sub_months k ts = (case ts of ((y, m, d), t) \<Rightarrow>
     (let total = y * 12 + (int m - 1) - int k;
          y' = total div 12;
          m' = nat (total mod 12) + 1
      in ((y', m', min d (days_in_month y' m')), t)))"

section \<open>Cells of a frame\<close>

text \<open>
  A numeric cell is a float64.  Its rounding is not modelled: a finite cell carries a real
  number.  The values outside the reals are kept, since the scripts divide without a guard
  and test for missing values: \<open>NaN\<close> (pandas' missing value), and the two infinities that
  a division by zero produces.  Zero has no sign here.
\<close>

datatype fl = NaN | NInf | Fin real | PInf

text \<open>\<open>pd.notna\<close>.\<close>

definition notna :: "fl \<Rightarrow> bool" where
  "notna x = (x \<noteq> NaN)"

fun is_fin :: "fl \<Rightarrow> bool" where
  "is_fin (Fin x) = True"
| "is_fin _ = False"

fun fin_val :: "fl \<Rightarrow> real" where
  "fin_val (Fin x) = x"
| "fin_val _ = 0"

text \<open>Comparisons: any comparison with \<open>NaN\<close> is false.\<close>

fun fl_lt :: "fl \<Rightarrow> fl \<Rightarrow> bool" where
  "fl_lt NaN b = False"
| "fl_lt a NaN = False"
| "fl_lt (Fin a) (Fin b) = (a < b)"
| "fl_lt a NInf = False"
| "fl_lt NInf b = True"
| "fl_lt PInf b = False"
| "fl_lt a PInf = True"

definition fl_gt :: "fl \<Rightarrow> fl \<Rightarrow> bool" where
  "fl_gt a b = fl_lt b a"

definition fl_ge :: "fl \<Rightarrow> fl \<Rightarrow> bool" where
  "fl_ge a b = (a \<noteq> NaN \<and> b \<noteq> NaN \<and> \<not> fl_lt a b)"

definition fl_eq :: "fl \<Rightarrow> fl \<Rightarrow> bool" where
  "fl_eq a b = (a \<noteq> NaN \<and> a = b)"

text \<open>Arithmetic, with the IEEE results at the infinities and at a zero divisor.\<close>

fun fl_neg :: "fl \<Rightarrow> fl" where
  "fl_neg NaN = NaN"
| "fl_neg NInf = PInf"
| "fl_neg PInf = NInf"
| "fl_neg (Fin a) = Fin (- a)"

fun fl_add :: "fl \<Rightarrow> fl \<Rightarrow> fl" where
  "fl_add NaN b = NaN"
| "fl_add a NaN = NaN"
| "fl_add (Fin a) (Fin b) = Fin (a + b)"
| "fl_add PInf NInf = NaN"
| "fl_add NInf PInf = NaN"
| "fl_add PInf b = PInf"
| "fl_add NInf b = NInf"
| "fl_add a b = b"

definition fl_sub :: "fl \<Rightarrow> fl \<Rightarrow> fl" where
  "fl_sub a b = fl_add a (fl_neg b)"

text \<open>The infinity with the sign of a real number; \<open>NaN\<close> for zero.\<close>

definition signed_inf :: "real \<Rightarrow> fl" where
  "signed_inf a = (if a > 0 then PInf else if a < 0 then NInf else NaN)"

fun fl_mul :: "fl \<Rightarrow> fl \<Rightarrow> fl" where
  "fl_mul NaN b = NaN"
| "fl_mul a NaN = NaN"
| "fl_mul (Fin a) (Fin b) = Fin (a * b)"
| "fl_mul (Fin a) PInf = signed_inf a"
| "fl_mul (Fin a) NInf = signed_inf (- a)"
| "fl_mul PInf (Fin b) = signed_inf b"
| "fl_mul NInf (Fin b) = signed_inf (- b)"
| "fl_mul PInf PInf = PInf"
| "fl_mul NInf NInf = PInf"
| "fl_mul a b = NInf"

fun fl_div :: "fl \<Rightarrow> fl \<Rightarrow> fl" where
  "fl_div NaN b = NaN"
| "fl_div a NaN = NaN"
| "fl_div (Fin a) (Fin b) = (if b \<noteq> 0 then Fin (a / b) else signed_inf a)"
| "fl_div (Fin a) b = Fin 0"
| "fl_div PInf (Fin b) = (if b < 0 then NInf else PInf)"
| "fl_div NInf (Fin b) = (if b < 0 then PInf else NInf)"
| "fl_div a b = NaN"

text \<open>\<open>np.arctan\<close>.\<close>

fun fl_arctan :: "fl \<Rightarrow> fl" where
  "fl_arctan NaN = NaN"
| "fl_arctan (Fin a) = Fin (arctan a)"
| "fl_arctan PInf = Fin (pi / 2)"
| "fl_arctan NInf = Fin (- (pi / 2))"

section \<open>Frames\<close>

text \<open>
  A frame is a pandas DataFrame with a datetime index: its rows in file order, each the
  index entry and the cells of the columns the script keeps.  The in-memory store
  \<open>stock_data\<close> is a Python dict from symbol to frame: an association list in insertion
  order, read with \<open>map_of\<close>.
\<close>

type_synonym 'r frame = "(timestamp \<times> 'r) list"

datatype error = IndexError | KeyError | ValueError

text \<open>
  \<open>df.loc[ts, col]\<close> for an index entry \<open>ts\<close>.  With one row at \<open>ts\<close> it is that row's cell.
  With several rows at \<open>ts\<close> pandas returns a Series, and every use of the result in the
  scripts ends in the condition of an \<open>if\<close> within the same iteration, where the truth value
  of a Series raises \<open>ValueError\<close>.
\<close>

definition loc :: "'r frame \<Rightarrow> timestamp \<Rightarrow> error + 'r" where
  "loc df ts = (case filter (\<lambda>r. fst r = ts) df of
      [] \<Rightarrow> Inl KeyError
    | [r] \<Rightarrow> Inr (snd r)
    | _ \<Rightarrow> Inl ValueError)"

text \<open>\<open>df.index[df.index.date == d]\<close>: the index entries on calendar date \<open>d\<close>.\<close>

definition matching_dates :: "'r frame \<Rightarrow> date \<Rightarrow> timestamp list" where
  "matching_dates df d = filter (\<lambda>ts. date_of ts = d) (map fst df)"

section \<open>Month-end trading days\<close>

text \<open>
  Step 3 of the volume cut: the union of all index entries of the store, sorted; grouped
  by \<open>to_period('M')\<close> with the maximum of each group (the groups in key order); the values
  sorted again.
\<close>

definition all_dates :: "(string \<times> 'r frame) list \<Rightarrow> timestamp list" where
  "all_dates stock_data = sort (remdups (concat (map (\<lambda>(name, df). map fst df) stock_data)))"

definition month_ends :: "timestamp list \<Rightarrow> timestamp list" where
  "month_ends ds =
     map (\<lambda>p. Max (set (filter (\<lambda>d. to_period_M d = p) ds))) (sort (remdups (map to_period_M ds)))"

definition month_end_dates :: "(string \<times> 'r frame) list \<Rightarrow> timestamp list" where
  "month_end_dates stock_data = sort (month_ends (all_dates stock_data))"

section \<open>Rolling mean\<close>

text \<open>
  \<open>series.rolling(window=w).mean()\<close> with pandas' defaults: the minimum number of
  observations is the window length, infinite cells count as missing, and the mean is kept
  as a running count and a running sum over the window: a cell entering the window is added,
  the cell leaving it is removed.
\<close>

definition add_mean :: "fl \<Rightarrow> nat \<times> real \<Rightarrow> nat \<times> real" where
  "add_mean v st = (case st of (nobs, sum_x) \<Rightarrow>
     if is_fin v then (nobs + 1, sum_x + fin_val v) else (nobs, sum_x))"

definition remove_mean :: "fl \<Rightarrow> nat \<times> real \<Rightarrow> nat \<times> real" where
  "remove_mean v st = (case st of (nobs, sum_x) \<Rightarrow>
     if is_fin v then (nobs - 1, sum_x - fin_val v) else (nobs, sum_x))"

definition calc_mean :: "nat \<Rightarrow> nat \<times> real \<Rightarrow> fl" where
  "calc_mean minp st = (case st of (nobs, sum_x) \<Rightarrow>
     if nobs \<ge> minp \<and> nobs > 0 then Fin (sum_x / real nobs) else NaN)"

text \<open>\<open>win\<close> is the window before the step, oldest cell first.\<close>

fun roll_mean :: "nat \<Rightarrow> fl list \<Rightarrow> nat \<times> real \<Rightarrow> fl list \<Rightarrow> fl list" where
  "roll_mean w win st [] = []"
| "roll_mean w win st (v # vs) =
     (let st1 = add_mean v st;
          win1 = win @ [v];
          st2 = (if length win1 > w then remove_mean (hd win1) st1 else st1);
          win2 = (if length win1 > w then tl win1 else win1)
      in calc_mean w st2 # roll_mean w win2 st2 vs)"

definition rolling_mean :: "nat \<Rightarrow> fl list \<Rightarrow> fl list" where
  "rolling_mean w xs = roll_mean w [] (0, 0) xs"

section \<open>Slope angle of the 200-day average\<close>

text \<open>\<open>series.shift(1)\<close>: every cell moves one row down, the first row is missing.\<close>

definition shift1 :: "fl list \<Rightarrow> fl list" where
  "shift1 xs = (if xs = [] then [] else NaN # butlast xs)"

text \<open>
  \<open>ma200_diff = ma200 - ma200.shift(1)\<close>, \<open>normalized_slope = ma200_diff / (close * 0.01)\<close>,
  \<open>angle = np.arctan(normalized_slope) * 180 / np.pi\<close>, all column-wise.
\<close>

definition angle_column :: "fl list \<Rightarrow> fl list \<Rightarrow> fl list" where
  "angle_column close ma200 =
     (let ma200_diff = map2 fl_sub ma200 (shift1 ma200);
          normalized_slope = map2 fl_div ma200_diff (map (\<lambda>c. fl_mul c (Fin (1 / 100))) close)
      in map (\<lambda>s. fl_div (fl_mul (fl_arctan s) (Fin 180)) (Fin pi)) normalized_slope)"

section \<open>Loading the store\<close>

text \<open>
  What \<open>pd.read_csv\<close> makes of one file of the data folder, as far as a script looks at
  it: the read raises (\<open>Unreadable\<close>), the column the script needs is absent
  (\<open>NoColumn\<close>), or there is a frame with the datetime index and that column.
\<close>

datatype csv_file = Unreadable | NoColumn | Table "fl frame"

definition NON_STOCK_FILES :: "string list" where
  "NON_STOCK_FILES = [''NIFTY500_INDEX'', ''summary_report'', ''combined_data'']"

definition stock_files :: "(string \<times> csv_file) list \<Rightarrow> (string \<times> csv_file) list" where
  "stock_files csv_files = filter (\<lambda>(stem, f). stem \<notin> set NON_STOCK_FILES) csv_files"

text \<open>
  The loading loop: a file is stored under its stem when it was read, has the column and is
  not empty; any other file is passed over.  \<open>derive\<close> adds the columns a script computes.
\<close>

definition load_file ::
  "(fl frame \<Rightarrow> 'r frame) \<Rightarrow> (string \<times> 'r frame) list \<Rightarrow> string \<times> csv_file
     \<Rightarrow> (string \<times> 'r frame) list" where
  "load_file derive stock_data file = (case file of (stock_name, f) \<Rightarrow>
     (case f of
        Table df \<Rightarrow> if df \<noteq> [] then AList.update stock_name (derive df) stock_data else stock_data
      | _ \<Rightarrow> stock_data))"

definition load_stock_data ::
  "(fl frame \<Rightarrow> 'r frame) \<Rightarrow> (string \<times> csv_file) list \<Rightarrow> (string \<times> 'r frame) list" where
  "load_stock_data derive csv_files = foldl (load_file derive) [] (stock_files csv_files)"

section \<open>Strings and loops\<close>

text \<open>\<open>sep.join(xs)\<close>.\<close>

fun join :: "string \<Rightarrow> string list \<Rightarrow> string" where
  "join sep [] = []"
| "join sep [x] = x"
| "join sep (x # y # ys) = x @ sep @ join sep (y # ys)"

text \<open>\<open>s.split(',')\<close>: \<open>acc\<close> is the piece being read, reversed.\<close>

fun split_acc :: "string \<Rightarrow> string \<Rightarrow> string list" where
  "split_acc acc [] = [rev acc]"
| "split_acc acc (c # cs) =
     (if c = CHR '','' then rev acc # split_acc [] cs else split_acc (c # acc) cs)"

definition split_comma :: "string \<Rightarrow> string list" where
  "split_comma s = split_acc [] s"

text \<open>\<open>s.strip()\<close>, for the ASCII white space characters.\<close>

definition is_space :: "char \<Rightarrow> bool" where
  "is_space c = (c \<in> set [CHR 0x09, CHR 0x0A, CHR 0x0B, CHR 0x0C, CHR 0x0D,
                           CHR 0x1C, CHR 0x1D, CHR 0x1E, CHR 0x1F, CHR 0x20])"

definition strip :: "string \<Rightarrow> string" where
  "strip s = rev (dropWhile is_space (rev (dropWhile is_space s)))"

text \<open>
  The \<open>stocks\<close> cell of an input row, as \<open>pd.read_csv\<close> returns it: missing (\<open>None\<close>, an
  empty field) or a string.  \<open>pd.isna(s) or s == ''\<close>, and the candidate list
  \<open>[s.strip() for s in stocks.split(',')]\<close>.
\<close>

type_synonym in_row = "timestamp \<times> string option"

definition no_stocks :: "string option \<Rightarrow> bool" where
  "no_stocks s = (s = None \<or> s = Some [])"

definition stocks_list :: "string option \<Rightarrow> string list" where
  "stocks_list s = (case s of None \<Rightarrow> [] | Some t \<Rightarrow> map strip (split_comma t))"

text \<open>
  A loop whose body appends an entry to a result list, appends nothing, or raises: the
  first exception ends the loop (and the run).
\<close>

fun for_append :: "('a \<Rightarrow> error + 'b option) \<Rightarrow> 'a list \<Rightarrow> error + 'b list" where
  "for_append body [] = Inr []"
| "for_append body (x # xs) =
     (case body x of
        Inl e \<Rightarrow> Inl e
      | Inr r \<Rightarrow>
          (case for_append body xs of
             Inl e \<Rightarrow> Inl e
           | Inr rs \<Rightarrow> Inr (case r of None \<Rightarrow> rs | Some y \<Rightarrow> y # rs)))"

definition for_rows :: "('a \<Rightarrow> error + 'b) \<Rightarrow> 'a list \<Rightarrow> error + 'b list" where
  "for_rows body xs = for_append (\<lambda>x. case body x of Inl e \<Rightarrow> Inl e | Inr r \<Rightarrow> Inr (Some r)) xs"

text \<open>
  A row of a filter stage's output file: the date as \<open>strftime('%Y-%m-%d')\<close> prints it (the
  calendar date), the joined symbol list and the count.
\<close>

record cut_row =
  row_date :: date
  row_stocks :: string
  row_count :: nat

definition empty_cut_row :: "timestamp \<Rightarrow> cut_row" where
  "empty_cut_row month_end_date =
     \<lparr>row_date = date_of month_end_date, row_stocks = [], row_count = 0\<rparr>"

definition make_cut_row :: "timestamp \<Rightarrow> string list \<Rightarrow> cut_row" where
  "make_cut_row month_end_date passing =
     \<lparr>row_date = date_of month_end_date,
      row_stocks = join '', '' (sort passing),
      row_count = length passing\<rparr>"

section \<open>Liquidity stage (generate_volume_cut.py)\<close>

definition VOLUME_THRESHOLD :: real where
  "VOLUME_THRESHOLD = 500000"

definition ROLLING_WINDOW :: nat where
  "ROLLING_WINDOW = 20"

text \<open>Rows of the stage's frames: (volume, avg_volume_20d).\<close>

definition with_avg_volume :: "fl frame \<Rightarrow> (fl \<times> fl) frame" where
  "with_avg_volume df =
     zip (map fst df) (zip (map snd df) (rolling_mean ROLLING_WINDOW (map snd df)))"

definition volume_body :: "timestamp \<Rightarrow> string \<times> (fl \<times> fl) frame \<Rightarrow> error + string option" where
  "volume_body month_end_date entry = (case entry of (stock_name, df) \<Rightarrow>
     if month_end_date \<in> set (map fst df) then
       (case loc df month_end_date of
          Inl e \<Rightarrow> Inl e
        | Inr (volume, avg_volume) \<Rightarrow>
            if notna avg_volume \<and> fl_gt avg_volume (Fin VOLUME_THRESHOLD)
            then Inr (Some stock_name) else Inr None)
     else Inr None)"

definition volume_cut_row ::
  "(string \<times> (fl \<times> fl) frame) list \<Rightarrow> timestamp \<Rightarrow> error + cut_row" where
  "volume_cut_row stock_data month_end_date =
     (case for_append (volume_body month_end_date) stock_data of
        Inl e \<Rightarrow> Inl e
      | Inr passing_stocks \<Rightarrow> Inr (make_cut_row month_end_date passing_stocks))"

text \<open>
  The run.  With no month-end at all the script raises at \<open>month_end_dates[0]\<close> at the
  latest, before any output is written.
\<close>

definition volume_cut_run :: "(string \<times> (fl \<times> fl) frame) list \<Rightarrow> error + cut_row list" where
  "volume_cut_run stock_data =
     (if month_end_dates stock_data = [] then Inl IndexError
      else for_rows (volume_cut_row stock_data) (month_end_dates stock_data))"


section \<open>Warm-up cut-off of the trend stages\<close>

text \<open>
  \<open>min([df.index.min() for df in stock_data.values()])\<close>, for a store that is not empty
  (every stored frame has a row).
\<close>

definition min_date :: "(string \<times> 'r frame) list \<Rightarrow> timestamp" where
  "min_date stock_data = Min (set (map (\<lambda>(name, df). Min (set (map fst df))) stock_data))"

text \<open>
  \<open>min_date + pd.Timedelta(days=w * 1.5)\<close>: a whole number of days for an even \<open>w\<close>, as
  both scripts' 200 is.
\<close>

definition first_valid_date :: "nat \<Rightarrow> timestamp \<Rightarrow> timestamp" where
  "first_valid_date w d = add_days (w * 3 div 2) d"

text \<open>
  The frame of a trend stage's run around its row loop: the input file must have a row
  (\<open>.iloc[0]\<close> in step 1), the store must not be empty (\<open>min\<close> of an empty list), and a
  row must be left after the cut-off (\<open>.iloc[0]\<close> in step 3).
\<close>

definition trend_run ::
  "nat \<Rightarrow> ((string \<times> 'r frame) list \<Rightarrow> in_row \<Rightarrow> error + cut_row)
     \<Rightarrow> (string \<times> 'r frame) list \<Rightarrow> in_row list \<Rightarrow> error + cut_row list" where
  "trend_run w row_body stock_data volume_cut_df =
     (if volume_cut_df = [] then Inl IndexError
      else if stock_data = [] then Inl ValueError
      else
        (let volume_cut_filtered =
               filter (\<lambda>row. first_valid_date w (min_date stock_data) \<le> fst row) volume_cut_df
         in if volume_cut_filtered = [] then Inl IndexError
            else for_rows (row_body stock_data) volume_cut_filtered))"

section \<open>Trend-level stage (sma_cut.py)\<close>

definition SMA_WINDOW :: nat where
  "SMA_WINDOW = 200"

text \<open>Rows of the stage's frames: (close, sma_200).\<close>

definition with_sma :: "fl frame \<Rightarrow> (fl \<times> fl) frame" where
  "with_sma df = zip (map fst df) (zip (map snd df) (rolling_mean SMA_WINDOW (map snd df)))"

definition sma_body ::
  "(string \<times> (fl \<times> fl) frame) list \<Rightarrow> timestamp \<Rightarrow> string \<Rightarrow> error + string option" where
  "sma_body stock_data month_end_date stock_name =
     (case map_of stock_data stock_name of
        None \<Rightarrow> Inr None
      | Some df \<Rightarrow>
          (case matching_dates df (date_of month_end_date) of
             [] \<Rightarrow> Inr None
           | actual_date # others \<Rightarrow>
               (case loc df actual_date of
                  Inl e \<Rightarrow> Inl e
                | Inr (close_price, sma_200) \<Rightarrow>
                    if notna sma_200 \<and> fl_gt close_price sma_200
                    then Inr (Some stock_name) else Inr None)))"

definition sma_cut_row :: "(string \<times> (fl \<times> fl) frame) list \<Rightarrow> in_row \<Rightarrow> error + cut_row" where
  "sma_cut_row stock_data row = (case row of (month_end_date, volume_filtered_stocks) \<Rightarrow>
     if no_stocks volume_filtered_stocks then Inr (empty_cut_row month_end_date)
     else
       (case for_append (sma_body stock_data month_end_date) (stocks_list volume_filtered_stocks) of
          Inl e \<Rightarrow> Inl e
        | Inr sma_passing_stocks \<Rightarrow> Inr (make_cut_row month_end_date sma_passing_stocks)))"


section \<open>Trend-slope stage (sma_angle_cut.py)\<close>

definition SMA_200_WINDOW :: nat where
  "SMA_200_WINDOW = 200"

definition SMA_50_WINDOW :: nat where
  "SMA_50_WINDOW = 50"

definition ANGLE_THRESHOLD :: real where
  "ANGLE_THRESHOLD = 2 / 10"

text \<open>Rows of the stage's frames: (close, ma200, ma50, angle).\<close>

definition with_angle :: "fl frame \<Rightarrow> (fl \<times> fl \<times> fl \<times> fl) frame" where
  "with_angle df =
     (let close = map snd df;
          ma200 = rolling_mean SMA_200_WINDOW close;
          ma50 = rolling_mean SMA_50_WINDOW close;
          angle = angle_column close ma200
      in zip (map fst df) (zip close (zip ma200 (zip ma50 angle))))"

definition buy_zone :: "fl \<times> fl \<times> fl \<times> fl \<Rightarrow> bool" where
  "buy_zone cells = (case cells of (close_price, ma200, ma50, angle) \<Rightarrow>
     notna angle \<and> notna ma200 \<and> notna ma50 \<and>
     fl_gt angle (Fin ANGLE_THRESHOLD) \<and> fl_gt close_price ma50 \<and> fl_gt close_price ma200)"

definition angle_body ::
  "(string \<times> (fl \<times> fl \<times> fl \<times> fl) frame) list \<Rightarrow> timestamp \<Rightarrow> string
     \<Rightarrow> error + string option" where
  "angle_body stock_data month_end_date stock_name =
     (case map_of stock_data stock_name of
        None \<Rightarrow> Inr None
      | Some df \<Rightarrow>
          (case matching_dates df (date_of month_end_date) of
             [] \<Rightarrow> Inr None
           | actual_date # others \<Rightarrow>
               (case loc df actual_date of
                  Inl e \<Rightarrow> Inl e
                | Inr cells \<Rightarrow> if buy_zone cells then Inr (Some stock_name) else Inr None)))"

definition angle_cut_row ::
  "(string \<times> (fl \<times> fl \<times> fl \<times> fl) frame) list \<Rightarrow> in_row \<Rightarrow> error + cut_row" where
  "angle_cut_row stock_data row = (case row of (month_end_date, volume_filtered_stocks) \<Rightarrow>
     if no_stocks volume_filtered_stocks then Inr (empty_cut_row month_end_date)
     else
       (case for_append (angle_body stock_data month_end_date) (stocks_list volume_filtered_stocks) of
          Inl e \<Rightarrow> Inl e
        | Inr buy_zone_stocks \<Rightarrow> Inr (make_cut_row month_end_date buy_zone_stocks)))"


section \<open>Relative-strength ranking (relative_rank.py)\<close>

definition TOP_N :: nat where
  "TOP_N = 30"

definition LOOKBACK_MONTHS :: nat where
  "LOOKBACK_MONTHS = 1"

text \<open>\<open>(current_price - past_price) / past_price\<close>.\<close>

definition period_return :: "fl \<Rightarrow> fl \<Rightarrow> fl" where
  "period_return current_price past_price = fl_div (fl_sub current_price past_price) past_price"

text \<open>The body of the loop over the candidates: an entry (symbol, rs_ratio) or nothing.\<close>

definition rs_body ::
  "(string \<times> fl frame) list \<Rightarrow> timestamp \<Rightarrow> timestamp \<Rightarrow> fl \<Rightarrow> string
     \<Rightarrow> error + (string \<times> fl) option" where
  "rs_body stock_data month_end_date three_months_back nifty_return stock_name =
     (case map_of stock_data stock_name of
        None \<Rightarrow> Inr None
      | Some df \<Rightarrow>
          (case matching_dates df (date_of month_end_date) of
             [] \<Rightarrow> Inr None
           | current_date # cs \<Rightarrow>
               (case matching_dates df (date_of three_months_back) of
                  [] \<Rightarrow> Inr None
                | past_date # ps \<Rightarrow>
                    (case loc df current_date of
                       Inl e \<Rightarrow> Inl e
                     | Inr current_price \<Rightarrow>
                         (case loc df past_date of
                            Inl e \<Rightarrow> Inl e
                          | Inr past_price \<Rightarrow>
                              (let stock_return = period_return current_price past_price;
                                   rs_ratio = fl_div stock_return nifty_return
                               in if fl_ge rs_ratio (Fin 1)
                                  then Inr (Some (stock_name, rs_ratio)) else Inr None))))))"

text \<open>
  \<open>stock_rs_data.sort(key=lambda x: x['rs_ratio'], reverse=True)\<close>: a stable sort, highest
  ratio first, entries of equal ratio in their order of arrival.
\<close>

fun insort_desc :: "string \<times> fl \<Rightarrow> (string \<times> fl) list \<Rightarrow> (string \<times> fl) list" where
  "insort_desc x [] = [x]"
| "insort_desc x (y # ys) =
     (if fl_lt (snd x) (snd y) then y # insort_desc x ys else x # y # ys)"

definition sort_desc :: "(string \<times> fl) list \<Rightarrow> (string \<times> fl) list" where
  "sort_desc xs = foldr insort_desc xs []"

text \<open>
  \<open>f"{x:.2f}"\<close>: the value rounded to hundredths, a tie going to the even neighbour; the
  integer part in decimal, a point and two digits.
\<close>

definition digit_char :: "nat \<Rightarrow> char" where
  "digit_char n = ''0123456789'' ! (n mod 10)"

function show_nat :: "nat \<Rightarrow> string" where
  "show_nat n = (if n < 10 then [digit_char n] else show_nat (n div 10) @ [digit_char (n mod 10)])"
  by pat_completeness auto
termination
  by (relation "measure id") auto

declare show_nat.simps [simp del]

definition round_half_even :: "real \<Rightarrow> nat" where
  "round_half_even x =
     (let f = nat \<lfloor>x\<rfloor>; r = x - real_of_int \<lfloor>x\<rfloor>
      in if r < 1 / 2 then f else if r > 1 / 2 then f + 1 else if even f then f else f + 1)"

fun fmt_2f :: "fl \<Rightarrow> string" where
  "fmt_2f NaN = ''nan''"
| "fmt_2f PInf = ''inf''"
| "fmt_2f NInf = ''-inf''"
| "fmt_2f (Fin x) =
     (let n = round_half_even (\<bar>x\<bar> * 100)
      in (if x < 0 then ''-'' else []) @ show_nat (n div 100) @ ''.''
           @ [digit_char (n div 10 mod 10), digit_char (n mod 10)])"

text \<open>\<open>f"{s['stock']} ({s['rs_ratio']:.2f})"\<close>.\<close>

definition fmt_entry :: "string \<times> fl \<Rightarrow> string" where
  "fmt_entry s = fst s @ '' ('' @ fmt_2f (snd s) @ '')''"

text \<open>A row of the ranking's output file: the date and the formatted list.\<close>

record rank_row =
  rank_date :: date
  rank_stocks :: string

definition empty_rank_row :: "timestamp \<Rightarrow> rank_row" where
  "empty_rank_row month_end_date = \<lparr>rank_date = date_of month_end_date, rank_stocks = []\<rparr>"

text \<open>The benchmark's return over the look-back, once both of its records are found.\<close>

definition nifty_return_at :: "fl frame \<Rightarrow> timestamp \<Rightarrow> timestamp \<Rightarrow> error + fl" where
  "nifty_return_at nifty_df current_date past_date =
     (case loc nifty_df current_date of
        Inl e \<Rightarrow> Inl e
      | Inr nifty_current_price \<Rightarrow>
          (case loc nifty_df past_date of
             Inl e \<Rightarrow> Inl e
           | Inr nifty_past_price \<Rightarrow> Inr (period_return nifty_current_price nifty_past_price)))"

text \<open>The candidates that are ranked for one date: sorted, and cut to the first \<open>TOP_N\<close>.\<close>

definition top_stocks ::
  "(string \<times> fl frame) list \<Rightarrow> timestamp \<Rightarrow> fl \<Rightarrow> string list \<Rightarrow> error + (string \<times> fl) list" where
  "top_stocks stock_data month_end_date nifty_return angle_stocks_list =
     (case for_append
             (rs_body stock_data month_end_date (sub_months LOOKBACK_MONTHS month_end_date)
                nifty_return)
             angle_stocks_list of
        Inl e \<Rightarrow> Inl e
      | Inr stock_rs_data \<Rightarrow> Inr (take TOP_N (sort_desc stock_rs_data)))"

definition format_stocks :: "(string \<times> fl) list \<Rightarrow> string" where
  "format_stocks ranked =
     (if length ranked > 0 then join '', '' (map fmt_entry ranked) else [])"

definition rank_cut_row :: "(string \<times> fl frame) list \<Rightarrow> fl frame \<Rightarrow> in_row \<Rightarrow> error + rank_row" where
  "rank_cut_row stock_data nifty_df row = (case row of (month_end_date, angle_stocks) \<Rightarrow>
     if no_stocks angle_stocks then Inr (empty_rank_row month_end_date)
     else
       (let three_months_back = sub_months LOOKBACK_MONTHS month_end_date;
            nifty_current_dates = matching_dates nifty_df (date_of month_end_date);
            nifty_past_dates = matching_dates nifty_df (date_of three_months_back)
        in if nifty_current_dates = [] \<or> nifty_past_dates = []
           then Inr (empty_rank_row month_end_date)
           else
             (case nifty_return_at nifty_df (hd nifty_current_dates) (hd nifty_past_dates) of
                Inl e \<Rightarrow> Inl e
              | Inr nifty_return \<Rightarrow>
                  if fl_eq nifty_return (Fin 0) then Inr (empty_rank_row month_end_date)
                  else
                    (case top_stocks stock_data month_end_date nifty_return
                            (stocks_list angle_stocks) of
                       Inl e \<Rightarrow> Inl e
                     | Inr ranked \<Rightarrow>
                         Inr \<lparr>rank_date = date_of month_end_date,
                              rank_stocks = format_stocks ranked\<rparr>))))"

text \<open>
  The run: the input file and the benchmark must each have a row (\<open>.iloc[0]\<close> and
  \<open>.index[0]\<close> in steps 1 and 2).
\<close>

definition relative_rank ::
  "(string \<times> csv_file) list \<Rightarrow> fl frame \<Rightarrow> in_row list \<Rightarrow> error + rank_row list" where
  "relative_rank csv_files nifty_df sma_angle_df =
     (if sma_angle_df = [] then Inl IndexError
      else if nifty_df = [] then Inl IndexError
      else for_rows (rank_cut_row (load_stock_data (\<lambda>df. df) csv_files) nifty_df) sma_angle_df)"

section \<open>Notions of the specification\<close>

text \<open>The union of the trading dates of all loaded symbols.\<close>

definition trading_dates :: "(string \<times> 'r frame) list \<Rightarrow> timestamp set" where
  "trading_dates stock_data = (\<Union>(name, df) \<in> set stock_data. fst ` set df)"

text \<open>The latest of the dates \<open>D\<close> that fall in the month \<open>p\<close>.\<close>

definition month_max :: "timestamp set \<Rightarrow> int \<times> nat \<Rightarrow> timestamp" where
  "month_max D p = Max {d \<in> D. to_period_M d = p}"

text \<open>The trailing \<open>w\<close> cells of a series (all of it while it is shorter).\<close>

definition trailing :: "nat \<Rightarrow> 'a list \<Rightarrow> 'a list" where
  "trailing w ys = drop (length ys - w) ys"

text \<open>The number of finite cells of a window and their sum.\<close>

definition st_of :: "fl list \<Rightarrow> nat \<times> real" where
  "st_of win = (length (filter is_fin win), sum_list (map fin_val win))"

text \<open>What a loop body appends for an element, when it does not raise.\<close>

definition body_result :: "('a \<Rightarrow> error + 'b option) \<Rightarrow> 'a \<Rightarrow> 'b option" where
  "body_result body x = (case body x of Inl e \<Rightarrow> None | Inr r \<Rightarrow> r)"

text \<open>The cells of row \<open>i\<close> of a symbol's frame in the trend-slope stage.\<close>

definition close_at :: "fl frame \<Rightarrow> nat \<Rightarrow> fl" where
  "close_at df i = fst (snd (with_angle df ! i))"

definition ma200_at :: "fl frame \<Rightarrow> nat \<Rightarrow> fl" where
  "ma200_at df i = fst (snd (snd (with_angle df ! i)))"

definition angle_at :: "fl frame \<Rightarrow> nat \<Rightarrow> fl" where
  "angle_at df i = snd (snd (snd (snd (with_angle df ! i))))"

text \<open>
  An output row narrows a candidate list: it is the row made of some symbols among the
  candidates, no more of them than there are candidates.
\<close>

definition narrows :: "timestamp \<Rightarrow> string list \<Rightarrow> cut_row \<Rightarrow> bool" where
  "narrows month_end_date candidates row =
     (\<exists>passing. row = make_cut_row month_end_date passing
        \<and> set passing \<subseteq> set candidates \<and> length passing \<le> length candidates)"

text \<open>The store entries that the files of a folder can give: a readable, non-empty table.\<close>

definition loadable :: "(fl frame \<Rightarrow> 'r frame) \<Rightarrow> (string \<times> csv_file) list \<Rightarrow> (string \<times> 'r frame) set" where
  "loadable derive fs = {e. \<exists>df. (fst e, Table df) \<in> set fs \<and> df \<noteq> [] \<and> snd e = derive df}"


text \<open>The order of the ranking: a ratio at least as high.\<close>

definition by_ratio :: "string \<times> fl \<Rightarrow> string \<times> fl \<Rightarrow> bool" where
  "by_ratio a b = fl_ge (snd a) (snd b)"

text \<open>
  An entry carries the ratio of its symbol: the symbol's return between its records of the
  look-back date and of the month-end date, divided by the benchmark return.
\<close>

definition has_ratio :: "(string \<times> fl frame) list \<Rightarrow> timestamp \<Rightarrow> fl \<Rightarrow> string \<times> fl \<Rightarrow> bool" where
  "has_ratio sd m nr e =
     (\<exists>df cd cs pd ps cp pp.
        map_of sd (fst e) = Some df
        \<and> matching_dates df (date_of m) = cd # cs
        \<and> matching_dates df (date_of (sub_months LOOKBACK_MONTHS m)) = pd # ps
        \<and> loc df cd = Inr cp \<and> loc df pd = Inr pp
        \<and> snd e = fl_div (period_return cp pp) nr)"



text \<open>The store entry a file gives, if it gives one.\<close>

definition store_entry ::
  "(fl frame \<Rightarrow> 'r frame) \<Rightarrow> string \<times> csv_file \<Rightarrow> (string \<times> 'r frame) option" where
  "store_entry derive f0 = (case snd f0 of
      Table df \<Rightarrow> if df \<noteq> [] then Some (fst f0, derive df) else None
    | _ \<Rightarrow> None)"

section \<open>The month-end index\<close>

lemma set_all_dates: "set (all_dates sd) = trading_dates sd"
  by (auto simp: all_dates_def trading_dates_def)

lemma finite_trading_dates: "finite (trading_dates sd)"
  by (simp add: trading_dates_def split_beta)

lemma month_ends_eq:
  "month_ends ds = map (month_max (set ds)) (sorted_list_of_set (to_period_M ` set ds))"
proof -
  have "\<And>p. set (filter (\<lambda>d. to_period_M d = p) ds) = {d \<in> set ds. to_period_M d = p}"
    by auto
  moreover have "sort (remdups (map to_period_M ds)) = sorted_list_of_set (to_period_M ` set ds)"
    by (simp add: sorted_list_of_set_sort_remdups [symmetric])
  ultimately show ?thesis
    by (simp add: month_ends_def month_max_def)
qed

lemma month_max_in:
  assumes "finite D" "p \<in> to_period_M ` D"
  shows "month_max D p \<in> D \<and> to_period_M (month_max D p) = p"
proof -
  have "finite {d \<in> D. to_period_M d = p}" using assms by simp
  moreover have "{d \<in> D. to_period_M d = p} \<noteq> {}" using assms by auto
  ultimately have "Max {d \<in> D. to_period_M d = p} \<in> {d \<in> D. to_period_M d = p}"
    by (rule Max_in)
  then show ?thesis by (simp add: month_max_def)
qed

lemma month_max_inj:
  assumes "finite D"
  shows "inj_on (month_max D) (to_period_M ` D)"
proof (rule inj_onI)
  fix p q assume "p \<in> to_period_M ` D" "q \<in> to_period_M ` D" "month_max D p = month_max D q"
  then show "p = q" using month_max_in [OF assms] by metis
qed

lemma month_end_dates_eq:
  "month_end_dates sd =
     sorted_list_of_set (month_max (trading_dates sd) ` to_period_M ` trading_dates sd)"
proof -
  let ?D = "trading_dates sd"
  let ?ps = "sorted_list_of_set (to_period_M ` ?D)"
  have fin: "finite ?D" by (rule finite_trading_dates)
  have "distinct (map (month_max ?D) ?ps)"
    using month_max_inj [OF fin] fin by (simp add: distinct_map)
  moreover have "set (map (month_max ?D) ?ps) = month_max ?D ` to_period_M ` ?D"
    using fin by simp
  ultimately have "sort (map (month_max ?D) ?ps) = sorted_list_of_set (month_max ?D ` to_period_M ` ?D)"
    by (metis distinct_sort set_sort sorted_sort sorted_list_of_set.idem_if_sorted_distinct)
  then show ?thesis
    by (simp add: month_end_dates_def month_ends_eq set_all_dates)
qed

text \<open>
  Claim C6.  The month-end index is the sorted list of the per-month maxima of the union
  of all symbols' trading dates; it is strictly increasing; each entry is a trading date
  of some symbol and the months it covers are exactly the months with a trading date (a
  month without one has no entry); and two stores with the same set of dates have the same
  index, whatever the order of their symbols and rows.
\<close>

theorem month_end_index:
  "month_end_dates sd =
     sorted_list_of_set (month_max (trading_dates sd) ` to_period_M ` trading_dates sd)
   \<and> sorted_wrt (<) (month_end_dates sd)
   \<and> set (month_end_dates sd) \<subseteq> trading_dates sd
   \<and> to_period_M ` set (month_end_dates sd) = to_period_M ` trading_dates sd
   \<and> (\<forall>sd' :: (string \<times> 'r frame) list.
        trading_dates sd' = trading_dates sd \<longrightarrow> month_end_dates sd' = month_end_dates sd)"
proof -
  let ?D = "trading_dates sd"
  have fin: "finite ?D" by (rule finite_trading_dates)
  have set_eq: "set (month_end_dates sd) = month_max ?D ` to_period_M ` ?D"
    using fin by (simp add: month_end_dates_eq)
  have "sorted_wrt (<) (month_end_dates sd)"
    by (simp add: month_end_dates_eq strict_sorted_iff)
  moreover have "set (month_end_dates sd) \<subseteq> ?D"
    unfolding set_eq using month_max_in [OF fin] by blast
  moreover have "to_period_M ` set (month_end_dates sd) = to_period_M ` ?D"
  proof -
    have "\<And>p. p \<in> to_period_M ` ?D \<Longrightarrow> to_period_M (month_max ?D p) = p"
      using month_max_in [OF fin] by blast
    then have "to_period_M ` month_max ?D ` to_period_M ` ?D = to_period_M ` ?D"
      by (simp add: image_image)
    then show ?thesis by (simp only: set_eq)
  qed
  ultimately show ?thesis
    by (simp add: month_end_dates_eq)
qed

theorem month_end_index_witness:
  "month_end_dates
     [(''A'', [(((2020, 1, 30), 0), ()), (((2020, 1, 31), 5), ())]),
      (''B'', [(((2020, 1, 31), 0), ()), (((2020, 3, 2), 0), ())])]
     = [((2020, 1, 31), 5), ((2020, 3, 2), 0)]
   \<and> month_end_dates
     [(''B'', [(((2020, 3, 2), 0), ()), (((2020, 1, 31), 0), ())]),
      (''A'', [(((2020, 1, 31), 5), ()), (((2020, 1, 30), 0), ())])]
     = [((2020, 1, 31), 5), ((2020, 3, 2), 0)]"
proof -
  let ?sd = "[(''A'', [(((2020, 1, 30), 0), ()), (((2020, 1, 31), 5::nat), ())]),
      (''B'', [(((2020, 1, 31), 0), ()), (((2020::int, 3::nat, 2::nat), 0), ())])]"
  let ?sd' = "[(''B'', [(((2020, 3, 2), 0), ()), (((2020, 1, 31), 0::nat), ())]),
      (''A'', [(((2020, 1, 31), 5), ()), (((2020::int, 1::nat, 30::nat), 0), ())])]"
  have a: "month_end_dates ?sd = [((2020, 1, 31), 5), ((2020, 3, 2), 0)]"
    by code_simp
  have "trading_dates ?sd' = trading_dates ?sd"
    by (auto simp: trading_dates_def)
  then have "month_end_dates ?sd' = month_end_dates ?sd"
    using month_end_index [of ?sd] by blast
  with a show ?thesis by simp
qed

section \<open>The rolling mean\<close>

lemma fin_val_not_fin: "\<not> is_fin v \<Longrightarrow> fin_val v = 0"
  by (cases v) auto

lemma add_mean_st_of: "add_mean v (st_of win) = st_of (win @ [v])"
  by (simp add: add_mean_def st_of_def fin_val_not_fin)

lemma remove_mean_st_of: "win \<noteq> [] \<Longrightarrow> remove_mean (hd win) (st_of win) = st_of (tl win)"
  by (cases win) (simp_all add: remove_mean_def st_of_def fin_val_not_fin)

lemma trailing_snoc:
  "trailing w (pre @ [v]) =
     (if length (trailing w pre @ [v]) > w then tl (trailing w pre @ [v]) else trailing w pre @ [v])"
proof (cases "length pre < w")
  case True
  then show ?thesis by (simp add: trailing_def)
next
  case False
  then have le: "w \<le> length pre" by simp
  show ?thesis
  proof (cases "w = 0")
    case True
    then show ?thesis by (simp add: trailing_def)
  next
    case False
    with le have ne: "drop (length pre - w) pre \<noteq> []" by simp
    have "Suc (length pre) - w = Suc (length pre - w)" using le by simp
    moreover have "tl (drop (length pre - w) pre @ [v]) = drop (Suc (length pre - w)) pre @ [v]"
      using ne by (simp add: drop_Suc tl_drop)
    ultimately show ?thesis using le False by (simp add: trailing_def)
  qed
qed

lemma roll_mean_general:
  "roll_mean w (trailing w pre) (st_of (trailing w pre)) xs =
     map (\<lambda>k. calc_mean w (st_of (trailing w (pre @ take (Suc k) xs)))) [0..<length xs]"
proof (induction xs arbitrary: pre)
  case Nil
  then show ?case by simp
next
  case (Cons v vs)
  let ?win1 = "trailing w pre @ [v]"
  have st: "(if length ?win1 > w then remove_mean (hd ?win1) (add_mean v (st_of (trailing w pre)))
            else add_mean v (st_of (trailing w pre))) = st_of (trailing w (pre @ [v]))"
    by (simp add: add_mean_st_of remove_mean_st_of trailing_snoc)
  have win: "(if length ?win1 > w then tl ?win1 else ?win1) = trailing w (pre @ [v])"
    by (simp add: trailing_snoc)
  have "roll_mean w (trailing w pre) (st_of (trailing w pre)) (v # vs) =
          calc_mean w (st_of (trailing w (pre @ [v])))
            # roll_mean w (trailing w (pre @ [v])) (st_of (trailing w (pre @ [v]))) vs"
    using st win by (simp add: Let_def)
  also have "\<dots> = calc_mean w (st_of (trailing w (pre @ [v])))
            # map (\<lambda>k. calc_mean w (st_of (trailing w ((pre @ [v]) @ take (Suc k) vs)))) [0..<length vs]"
    by (simp only: Cons.IH)
  also have "\<dots> = map (\<lambda>k. calc_mean w (st_of (trailing w (pre @ take (Suc k) (v # vs))))) [0..<length (v # vs)]"
    by (simp add: upt_conv_Cons map_Suc_upt [symmetric] o_def del: upt_Suc)
  finally show ?case .
qed


lemma length_rolling_mean: "length (rolling_mean w xs) = length xs"
  using roll_mean_general [of w "[]" xs] by (simp add: rolling_mean_def trailing_def st_of_def)





section \<open>Loops and look-ups\<close>

lemma for_append_Inr:
  "for_append body xs = Inr ys \<Longrightarrow>
     (\<forall>x \<in> set xs. \<exists>r. body x = Inr r) \<and> ys = List.map_filter (body_result body) xs"
proof (induction xs arbitrary: ys)
  case Nil
  then show ?case by (simp add: List.map_filter_simps)
next
  case (Cons x xs)
  from Cons.prems obtain r rs where r: "body x = Inr r" and rs: "for_append body xs = Inr rs"
    and ys: "ys = (case r of None \<Rightarrow> rs | Some y \<Rightarrow> y # rs)"
    by (auto split: sum.splits)
  from Cons.IH [OF rs] r ys show ?case
    by (auto simp: List.map_filter_simps body_result_def split: option.splits)
qed

lemma for_append_total:
  "(\<forall>x \<in> set xs. \<exists>r. body x = Inr r) \<Longrightarrow>
     for_append body xs = Inr (List.map_filter (body_result body) xs)"
  by (induction xs) (auto simp: List.map_filter_simps body_result_def split: option.splits)

lemma for_append_Inl:
  "for_append body xs = Inl e \<Longrightarrow> \<exists>x \<in> set xs. body x = Inl e"
  by (induction xs) (auto split: sum.splits)

lemma set_map_filter_subset:
  assumes "\<And>x y. f x = Some y \<Longrightarrow> g y = x"
  shows "g ` set (List.map_filter f xs) \<subseteq> set xs"
  using assms by (induction xs) (auto simp: List.map_filter_simps split: option.splits)

lemma length_map_filter_le: "length (List.map_filter f xs) \<le> length xs"
  by (induction xs) (auto simp: List.map_filter_simps split: option.splits)


lemma loc_no_KeyError: "ts \<in> fst ` set df \<Longrightarrow> loc df ts \<noteq> Inl KeyError"
proof -
  assume "ts \<in> fst ` set df"
  then have "filter (\<lambda>r. fst r = ts) df \<noteq> []"
    by (auto simp: filter_empty_conv)
  then show ?thesis
    by (auto simp: loc_def split: list.splits)
qed






section \<open>The slope angle\<close>

lemma shift1_nth:
  "i < length xs \<Longrightarrow> shift1 xs ! i = (if i = 0 then NaN else xs ! (i - 1))"
  by (cases i) (auto simp: shift1_def nth_butlast)

lemma length_shift1: "length (shift1 xs) = length xs"
  by (simp add: shift1_def)

lemma angle_column_nth:
  assumes "i < length close" "length ma200 = length close"
  shows "angle_column close ma200 ! i =
     fl_div (fl_mul (fl_arctan
        (fl_div (fl_sub (ma200 ! i) (if i = 0 then NaN else ma200 ! (i - 1)))
                (fl_mul (close ! i) (Fin (1 / 100))))) (Fin 180)) (Fin pi)"
  using assms by (simp add: angle_column_def Let_def length_shift1 shift1_nth)

lemma length_angle_column:
  "length ma200 = length close \<Longrightarrow> length (angle_column close ma200) = length close"
  by (simp add: angle_column_def Let_def length_shift1)

lemma with_angle_nth:
  assumes "i < length df"
  shows "with_angle df ! i =
     (fst (df ! i), snd (df ! i), rolling_mean SMA_200_WINDOW (map snd df) ! i,
      rolling_mean SMA_50_WINDOW (map snd df) ! i,
      angle_column (map snd df) (rolling_mean SMA_200_WINDOW (map snd df)) ! i)"
  using assms
  by (simp add: with_angle_def Let_def length_rolling_mean length_angle_column)

lemma angle_at_eq:
  assumes "i < length df"
  shows "angle_at df i =
     fl_div (fl_mul (fl_arctan
        (fl_div (fl_sub (ma200_at df i) (if i = 0 then NaN else ma200_at df (i - 1)))
                (fl_mul (close_at df i) (Fin (1 / 100))))) (Fin 180)) (Fin pi)"
proof -
  have "i - 1 < length df" using assms by simp
  then show ?thesis
    using assms
    by (simp add: angle_at_def ma200_at_def close_at_def with_angle_nth angle_column_nth
        length_rolling_mean)
qed

lemma fl_div_NaN_right [simp]: "fl_div a NaN = NaN"
  by (cases a) simp_all

lemma fl_mul_NaN_right [simp]: "fl_mul a NaN = NaN"
  by (cases a) simp_all

lemma fl_add_NaN_right [simp]: "fl_add a NaN = NaN"
  by (cases a) simp_all

lemma fl_sub_NaN_left [simp]: "fl_sub NaN b = NaN"
  by (simp add: fl_sub_def)

lemma fl_sub_NaN_right [simp]: "fl_sub a NaN = NaN"
  by (simp add: fl_sub_def)

lemma fl_sub_Fin [simp]: "fl_sub (Fin a) (Fin b) = Fin (a - b)"
  by (simp add: fl_sub_def)





text \<open>
  Claim C3.  At every row \<open>i\<close> of a symbol's frame the angle is
  \<open>atan((ma[i] - ma[i-1]) / (close[i] * 0.01)) * 180 / pi\<close> whenever both averages and a
  non-zero close are there; it is missing when \<open>ma[i]\<close> or \<open>ma[i-1]\<close> is missing (at the
  first row there is no \<open>ma[i-1]\<close>); it is exactly 0 when the average did not move and the
  close is defined and not zero.  Beyond the claim: a missing close gives a missing angle,
  and a zero close gives 90, -90 or a missing angle (the division by zero does not raise).
\<close>

theorem slope_angle:
  assumes "i < length df"
  shows "(\<forall>a b c. 0 < i \<and> ma200_at df i = Fin a \<and> ma200_at df (i - 1) = Fin b
            \<and> close_at df i = Fin c \<and> c \<noteq> 0 \<longrightarrow>
          angle_at df i = Fin (arctan ((a - b) / (c * (1 / 100))) * 180 / pi))
   \<and> (ma200_at df i = NaN \<or> i = 0 \<or> ma200_at df (i - 1) = NaN \<longrightarrow> angle_at df i = NaN)
   \<and> (\<forall>a c. 0 < i \<and> ma200_at df i = Fin a \<and> ma200_at df (i - 1) = Fin a
            \<and> close_at df i = Fin c \<and> c \<noteq> 0 \<longrightarrow>
          angle_at df i = Fin 0)
   \<and> (close_at df i = NaN \<longrightarrow> angle_at df i = NaN)
   \<and> (\<forall>a b. 0 < i \<and> ma200_at df i = Fin a \<and> ma200_at df (i - 1) = Fin b
            \<and> close_at df i = Fin 0 \<longrightarrow>
          angle_at df i = (if a > b then Fin 90 else if a < b then Fin (- 90) else NaN))"
proof (intro conjI allI impI)
  fix a b c
  assume "0 < i \<and> ma200_at df i = Fin a \<and> ma200_at df (i - 1) = Fin b
            \<and> close_at df i = Fin c \<and> c \<noteq> 0"
  then show "angle_at df i = Fin (arctan ((a - b) / (c * (1 / 100))) * 180 / pi)"
    using assms by (simp add: angle_at_eq)
next
  assume "ma200_at df i = NaN \<or> i = 0 \<or> ma200_at df (i - 1) = NaN"
  then show "angle_at df i = NaN"
    using assms by (auto simp: angle_at_eq)
next
  fix a c
  assume "0 < i \<and> ma200_at df i = Fin a \<and> ma200_at df (i - 1) = Fin a
            \<and> close_at df i = Fin c \<and> c \<noteq> 0"
  then show "angle_at df i = Fin 0"
    using assms by (simp add: angle_at_eq)
next
  assume "close_at df i = NaN"
  then show "angle_at df i = NaN"
    using assms by (simp add: angle_at_eq)
next
  fix a b
  assume "0 < i \<and> ma200_at df i = Fin a \<and> ma200_at df (i - 1) = Fin b
            \<and> close_at df i = Fin 0"
  then show "angle_at df i = (if a > b then Fin 90 else if a < b then Fin (- 90) else NaN)"
    using assms by (simp add: angle_at_eq signed_inf_def)
qed


section \<open>The filter stages\<close>

lemma for_rows_Inr:
  "for_rows body xs = Inr ys \<Longrightarrow> list_all2 (\<lambda>x y. body x = Inr y) xs ys"
proof (induction xs arbitrary: ys)
  case Nil
  then show ?case by (simp add: for_rows_def)
next
  case (Cons x xs)
  from Cons.prems obtain r rs where "body x = Inr r" "for_rows body xs = Inr rs" "ys = r # rs"
    by (auto simp: for_rows_def split: sum.splits)
  with Cons.IH show ?case by simp
qed

lemma for_rows_total:
  "(\<forall>x \<in> set xs. \<exists>r. body x = Inr r) \<Longrightarrow> \<exists>ys. for_rows body xs = Inr ys"
  by (induction xs) (auto simp: for_rows_def)

lemma trend_run_Inr:
  assumes "trend_run w body sd input = Inr rows"
  shows "input \<noteq> [] \<and> sd \<noteq> [] \<and> rows \<noteq> []
    \<and> list_all2 (\<lambda>r row. body sd r = Inr row)
         (filter (\<lambda>r. first_valid_date w (min_date sd) \<le> fst r) input) rows"
proof -
  let ?f = "filter (\<lambda>r. first_valid_date w (min_date sd) \<le> fst r) input"
  from assms have ne: "input \<noteq> []" "sd \<noteq> []" "?f \<noteq> []" and run: "for_rows (body sd) ?f = Inr rows"
    by (auto simp: trend_run_def Let_def split: if_splits)
  from for_rows_Inr [OF run] have all2: "list_all2 (\<lambda>r row. body sd r = Inr row) ?f rows" .
  then have "length ?f = length rows" by (rule list_all2_lengthD)
  with ne(3) have "rows \<noteq> []" by auto
  with ne all2 show ?thesis by simp
qed

lemma volume_body_name: "volume_body m e = Inr (Some y) \<Longrightarrow> y = fst e"
  by (auto simp: volume_body_def split: prod.splits if_splits sum.splits)

lemma sma_body_name: "sma_body sd m n = Inr (Some y) \<Longrightarrow> y = n"
  by (auto simp: sma_body_def split: option.splits list.splits sum.splits if_splits)

lemma angle_body_name: "angle_body sd m n = Inr (Some y) \<Longrightarrow> y = n"
  by (auto simp: angle_body_def split: option.splits list.splits sum.splits if_splits)

lemma for_append_narrows:
  assumes "\<And>x y. body x = Inr (Some y) \<Longrightarrow> y = g x"
    and "for_append body xs = Inr passing"
  shows "set passing \<subseteq> g ` set xs \<and> length passing \<le> length xs"
proof -
  from for_append_Inr [OF assms(2)] have eq: "passing = List.map_filter (body_result body) xs"
    by simp
  have "\<And>x y. body_result body x = Some y \<Longrightarrow> y = g x"
    using assms(1) by (auto simp: body_result_def split: sum.splits)
  then have "set (List.map_filter (body_result body) xs) \<subseteq> g ` set xs"
    by (induction xs) (auto simp: List.map_filter_simps split: option.splits)
  with eq show ?thesis by (simp add: length_map_filter_le)
qed

lemma empty_is_made: "empty_cut_row m = make_cut_row m []"
  by (simp add: empty_cut_row_def make_cut_row_def)

lemma volume_cut_row_narrows:
  assumes "volume_cut_row sd m = Inr row"
  shows "narrows m (map fst sd) row"
proof -
  from assms obtain passing where p: "for_append (volume_body m) sd = Inr passing"
    and row: "row = make_cut_row m passing"
    by (auto simp: volume_cut_row_def split: sum.splits)
  have "set passing \<subseteq> fst ` set sd \<and> length passing \<le> length sd"
    using p by (rule for_append_narrows [rotated]) (rule volume_body_name)
  with row show ?thesis by (auto simp: narrows_def)
qed

lemma sma_cut_row_narrows:
  assumes "sma_cut_row sd (m, s) = Inr row"
  shows "narrows m (stocks_list s) row"
proof (cases "no_stocks s")
  case True
  with assms have "row = make_cut_row m []" by (simp add: sma_cut_row_def empty_is_made)
  then show ?thesis by (auto simp: narrows_def)
next
  case False
  with assms obtain passing where p: "for_append (sma_body sd m) (stocks_list s) = Inr passing"
    and row: "row = make_cut_row m passing"
    by (auto simp: sma_cut_row_def split: sum.splits)
  have "set passing \<subseteq> id ` set (stocks_list s) \<and> length passing \<le> length (stocks_list s)"
    using p by (rule for_append_narrows [rotated]) (simp add: sma_body_name)
  with row show ?thesis by (auto simp: narrows_def)
qed

lemma angle_cut_row_narrows:
  assumes "angle_cut_row sd (m, s) = Inr row"
  shows "narrows m (stocks_list s) row"
proof (cases "no_stocks s")
  case True
  with assms have "row = make_cut_row m []" by (simp add: angle_cut_row_def empty_is_made)
  then show ?thesis by (auto simp: narrows_def)
next
  case False
  with assms obtain passing where p: "for_append (angle_body sd m) (stocks_list s) = Inr passing"
    and row: "row = make_cut_row m passing"
    by (auto simp: angle_cut_row_def split: sum.splits)
  have "set passing \<subseteq> id ` set (stocks_list s) \<and> length passing \<le> length (stocks_list s)"
    using p by (rule for_append_narrows [rotated]) (simp add: angle_body_name)
  with row show ?thesis by (auto simp: narrows_def)
qed

lemma list_all2_set_right:
  assumes "list_all2 P xs ys" "y \<in> set ys"
  shows "\<exists>x \<in> set xs. P x y"
proof -
  from assms(2) obtain i where i: "i < length ys" "y = ys ! i"
    by (auto simp: in_set_conv_nth)
  with assms(1) have "i < length xs" "P (xs ! i) y"
    by (auto simp: list_all2_conv_all_nth)
  then show ?thesis using nth_mem by blast
qed

lemma trend_run_row:
  assumes "trend_run w body sd input = Inr rows" "row \<in> set rows"
  shows "\<exists>r \<in> set input. first_valid_date w (min_date sd) \<le> fst r \<and> body sd r = Inr row"
proof -
  let ?f = "filter (\<lambda>r. first_valid_date w (min_date sd) \<le> fst r) input"
  from trend_run_Inr [OF assms(1)] have "list_all2 (\<lambda>r row. body sd r = Inr row) ?f rows"
    by simp
  from list_all2_set_right [OF this assms(2)] obtain r where "r \<in> set ?f" "body sd r = Inr row"
    by blast
  then show ?thesis by auto
qed

text \<open>
  Claim C1.  In the output of each non-ranking stage a row's symbols are among the stage's
  candidates for the row's date, and there are no more of them than candidates: the
  liquidity stage narrows the loaded universe at every month-end, and each row of a trend
  stage narrows the candidate list of an input row of the same date.
\<close>

theorem monotonic_narrowing:
  "(volume_cut_run sd = Inr rows \<longrightarrow>
      list_all2 (\<lambda>m row. narrows m (map fst sd) row) (month_end_dates sd) rows)
   \<and> (trend_run w sma_cut_row sd2 input = Inr rows2 \<longrightarrow>
      (\<forall>row \<in> set rows2. \<exists>r \<in> set input.
          row_date row = date_of (fst r) \<and> narrows (fst r) (stocks_list (snd r)) row))
   \<and> (trend_run w angle_cut_row sd3 input = Inr rows3 \<longrightarrow>
      (\<forall>row \<in> set rows3. \<exists>r \<in> set input.
          row_date row = date_of (fst r) \<and> narrows (fst r) (stocks_list (snd r)) row))"
proof (intro conjI impI ballI)
  assume "volume_cut_run sd = Inr rows"
  then have "for_rows (volume_cut_row sd) (month_end_dates sd) = Inr rows"
    by (simp add: volume_cut_run_def split: if_splits)
  from for_rows_Inr [OF this]
  show "list_all2 (\<lambda>m row. narrows m (map fst sd) row) (month_end_dates sd) rows"
    by (rule list_all2_mono) (rule volume_cut_row_narrows)
next
  fix row assume run: "trend_run w sma_cut_row sd2 input = Inr rows2" and row: "row \<in> set rows2"
  from trend_run_row [OF run row]
  obtain r where r: "r \<in> set input" "sma_cut_row sd2 r = Inr row" by blast
  obtain m s where ms: "r = (m, s)" by (cases r)
  from sma_cut_row_narrows [of sd2 m s row] r ms have n: "narrows m (stocks_list s) row" by simp
  then have "row_date row = date_of m" by (auto simp: narrows_def make_cut_row_def)
  with n ms have "row_date row = date_of (fst r) \<and> narrows (fst r) (stocks_list (snd r)) row"
    by simp
  with r(1)
  show "\<exists>r \<in> set input. row_date row = date_of (fst r) \<and> narrows (fst r) (stocks_list (snd r)) row"
    by (rule rev_bexI)
next
  fix row assume run: "trend_run w angle_cut_row sd3 input = Inr rows3" and row: "row \<in> set rows3"
  from trend_run_row [OF run row]
  obtain r where r: "r \<in> set input" "angle_cut_row sd3 r = Inr row" by blast
  obtain m s where ms: "r = (m, s)" by (cases r)
  from angle_cut_row_narrows [of sd3 m s row] r ms have n: "narrows m (stocks_list s) row" by simp
  then have "row_date row = date_of m" by (auto simp: narrows_def make_cut_row_def)
  with n ms have "row_date row = date_of (fst r) \<and> narrows (fst r) (stocks_list (snd r)) row"
    by simp
  with r(1)
  show "\<exists>r \<in> set input. row_date row = date_of (fst r) \<and> narrows (fst r) (stocks_list (snd r)) row"
    by (rule rev_bexI)
qed

theorem monotonic_narrowing_witness:
  "volume_cut_run
     [(''A'', [(((2020, 1, 31), 0), (Fin 1, Fin 600000))]),
      (''B'', [(((2020, 1, 31), 0), (Fin 1, Fin 100))])]
     = Inr [\<lparr>row_date = (2020, 1, 31), row_stocks = ''A'', row_count = 1\<rparr>]
   \<and> narrows ((2020, 1, 31), 0) [''A'', ''B'']
        \<lparr>row_date = (2020, 1, 31), row_stocks = ''A'', row_count = 1\<rparr>
   \<and> trend_run 200 sma_cut_row
       [(''A'', [(((2019, 1, 1), 0), (Fin 5, NaN)), (((2020, 1, 31), 0), (Fin 5, Fin 4))]),
        (''B'', [(((2020, 1, 31), 0), (Fin 3, Fin 4))])]
       [(((2020, 1, 31), 0), Some ''A, B, C'')]
     = Inr [\<lparr>row_date = (2020, 1, 31), row_stocks = ''A'', row_count = 1\<rparr>]
   \<and> narrows ((2020, 1, 31), 0) [''A'', ''B'', ''C'']
        \<lparr>row_date = (2020, 1, 31), row_stocks = ''A'', row_count = 1\<rparr>
   \<and> trend_run 200 angle_cut_row
       [(''A'', [(((2019, 1, 1), 0), (Fin 5, NaN, NaN, NaN)),
                 (((2020, 1, 31), 0), (Fin 5, Fin 4, Fin 4, Fin 1))]),
        (''B'', [(((2020, 1, 31), 0), (Fin 5, Fin 4, Fin 4, Fin (1 / 10)))])]
       [(((2020, 1, 31), 0), Some ''A, B, C'')]
     = Inr [\<lparr>row_date = (2020, 1, 31), row_stocks = ''A'', row_count = 1\<rparr>]"
proof -
  let ?d = "((2020::int, 1::nat, 31::nat), 0::nat)"
  let ?row = "\<lparr>row_date = (2020, 1, 31), row_stocks = ''A'', row_count = 1\<rparr>"
  let ?sd = "[(''A'', [(?d, (Fin 1, Fin 600000))]), (''B'', [(?d, (Fin 1, Fin 100))])]"
  let ?sd2 = "[(''A'', [(((2019, 1, 1), 0), (Fin 5, NaN)), (?d, (Fin 5, Fin 4))]),
        (''B'', [(?d, (Fin 3, Fin 4))])]"
  let ?sd3 = "[(''A'', [(((2019, 1, 1), 0), (Fin 5, NaN, NaN, NaN)),
                 (?d, (Fin 5, Fin 4, Fin 4, Fin 1))]),
        (''B'', [(?d, (Fin 5, Fin 4, Fin 4, Fin (1 / 10)))])]"
  let ?input = "[(?d, Some ''A, B, C'')]"
  have v: "volume_cut_run ?sd = Inr [?row]" by code_simp
  have med: "month_end_dates ?sd = [?d]" by code_simp
  have s: "trend_run 200 sma_cut_row ?sd2 ?input = Inr [?row]" by code_simp
  have a: "trend_run 200 angle_cut_row ?sd3 ?input = Inr [?row]" by code_simp
  have sl: "stocks_list (Some ''A, B, C'') = [''A'', ''B'', ''C'']" by code_simp
  note th = monotonic_narrowing [of ?sd "[?row]" 200 ?sd2 ?input "[?row]" ?sd3 "[?row]"]
  from th v med have n1: "narrows ?d [''A'', ''B''] ?row" by simp
  from th s sl have n2: "narrows ?d [''A'', ''B'', ''C''] ?row" by simp
  from v n1 s n2 a show ?thesis by simp
qed

section \<open>The warm-up cut-off\<close>


lemma loadable_Cons: "loadable derive [f0] \<union> loadable derive fs = loadable derive (f0 # fs)"
  unfolding loadable_def by (rule set_eqI) (simp, blast)

lemma set_alist_update: "set (AList.update k v al) \<subseteq> insert (k, v) (set al)"
  by (induction al) auto

lemma set_load_file:
  "set (load_file derive sd f0) \<subseteq> set sd \<union> loadable derive [f0]"
proof (cases f0)
  case (Pair n f)
  show ?thesis
  proof (cases f)
    case (Table df)
    have "set (AList.update n (derive df) sd) \<subseteq> insert (n, derive df) (set sd)"
      by (rule set_alist_update)
    moreover have "df \<noteq> [] \<Longrightarrow> (n, derive df) \<in> loadable derive [f0]"
      using Pair Table by (simp add: loadable_def)
    ultimately show ?thesis using Pair Table by (auto simp: load_file_def)
  qed (simp_all add: Pair load_file_def)
qed

lemma set_foldl_load_file:
  "set (foldl (load_file derive) sd fs) \<subseteq> set sd \<union> loadable derive fs"
proof (induction fs arbitrary: sd)
  case Nil
  then show ?case by simp
next
  case (Cons f0 fs)
  have "set (foldl (load_file derive) (load_file derive sd f0) fs)
     \<subseteq> set (load_file derive sd f0) \<union> loadable derive fs"
    by (rule Cons.IH)
  also have "\<dots> \<subseteq> (set sd \<union> loadable derive [f0]) \<union> loadable derive fs"
    using set_load_file [of derive sd f0] by blast
  also have "\<dots> = set sd \<union> loadable derive (f0 # fs)"
    using loadable_Cons [of derive f0 fs] by blast
  finally show ?case by simp
qed

lemma set_load_stock_data:
  "set (load_stock_data derive files) \<subseteq> loadable derive (stock_files files)"
  using set_foldl_load_file [of derive "[]" "stock_files files"]
  by (simp add: load_stock_data_def)



lemma with_avg_volume_index: "map fst (with_avg_volume df) = map fst df"
  by (simp add: with_avg_volume_def length_rolling_mean)




lemma with_avg_volume_nonempty: "df \<noteq> [] \<Longrightarrow> with_avg_volume df \<noteq> []"
  using with_avg_volume_index [of df] by (metis map_is_Nil_conv)








section \<open>Locating a record\<close>











section \<open>Symbols absent from the store\<close>

lemma for_append_removeAll:
  "body x = Inr None \<Longrightarrow> for_append body (removeAll x xs) = for_append body xs"
  by (induction xs) (auto split: sum.splits)

lemma sma_body_absent: "map_of sd name = None \<Longrightarrow> sma_body sd m name = Inr None"
  by (simp add: sma_body_def)

lemma angle_body_absent: "map_of sd name = None \<Longrightarrow> angle_body sd m name = Inr None"
  by (simp add: angle_body_def)

lemma rs_body_absent: "map_of sd name = None \<Longrightarrow> rs_body sd m b nr name = Inr None"
  by (simp add: rs_body_def)

lemma not_loadable_absent:
  assumes "\<forall>df. (name, Table df) \<in> set files \<longrightarrow> df = []"
  shows "map_of (load_stock_data derive files) name = None"
proof (rule ccontr)
  assume "map_of (load_stock_data derive files) name \<noteq> None"
  then obtain f where "map_of (load_stock_data derive files) name = Some f" by blast
  then have "(name, f) \<in> set (load_stock_data derive files)" by (rule map_of_SomeD)
  then have "(name, f) \<in> loadable derive (stock_files files)"
    using set_load_stock_data [of derive files] by blast
  then obtain df where "(name, Table df) \<in> set (stock_files files)" "df \<noteq> []"
    by (auto simp: loadable_def)
  then have "(name, Table df) \<in> set files" "df \<noteq> []" by (simp_all add: stock_files_def)
  with assms show False by blast
qed

text \<open>
  Claim C10.  In the trend stages and in the ranking, a candidate that has no frame in the
  store gives no entry and raises nothing, and the loop over the candidates gives what it
  gives without that candidate.  A symbol is absent from the store when the folder has no
  file for it or its file could not be read, lacks the column or is empty.  (The liquidity
  stage has no prior stage: its candidates are the symbols of the store.)
\<close>

theorem absent_symbol_excluded:
  "(map_of sd name = None \<longrightarrow>
      sma_body sd m name = Inr None
      \<and> for_append (sma_body sd m) (removeAll name cands) = for_append (sma_body sd m) cands)
   \<and> (map_of sd2 name = None \<longrightarrow>
      angle_body sd2 m name = Inr None
      \<and> for_append (angle_body sd2 m) (removeAll name cands) = for_append (angle_body sd2 m) cands)
   \<and> (map_of sd3 name = None \<longrightarrow>
      rs_body sd3 m (sub_months LOOKBACK_MONTHS m) nr name = Inr None
      \<and> top_stocks sd3 m nr (removeAll name cands) = top_stocks sd3 m nr cands)
   \<and> ((\<forall>df. (name, Table df) \<in> set files \<longrightarrow> df = []) \<longrightarrow>
      map_of (load_stock_data with_sma files) name = None
      \<and> map_of (load_stock_data with_angle files) name = None
      \<and> map_of (load_stock_data (\<lambda>df. df) files) name = None)"
  by (simp add: sma_body_absent angle_body_absent rs_body_absent for_append_removeAll
      top_stocks_def not_loadable_absent)

theorem absent_symbol_excluded_witness:
  "sma_body [(''A'', [(((2020, 1, 31), 0), (Fin 5, Fin 4))])] ((2020, 1, 31), 0) ''ZZ'' = Inr None
   \<and> for_append (sma_body [(''A'', [(((2020, 1, 31), 0), (Fin 5, Fin 4))])] ((2020, 1, 31), 0))
        [''ZZ'', ''A'', ''ZZ''] = Inr [''A'']
   \<and> top_stocks [(''A'', [(((2019, 12, 31), 0), Fin 100), (((2020, 1, 31), 0), Fin 120)])]
        ((2020, 1, 31), 0) (Fin (1 / 10)) [''ZZ'', ''A'', ''ZZ''] = Inr [(''A'', Fin 2)]
   \<and> map_of (load_stock_data with_sma
        [(''ZZ'', Unreadable), (''YY'', NoColumn), (''XX'', Table []),
         (''A'', Table [(((2020, 1, 31), 0), Fin 5)])]) ''ZZ'' = None"
proof -
  let ?m = "((2020::int, 1::nat, 31::nat), 0::nat)"
  let ?sd = "[(''A'', [(?m, (Fin 5, Fin 4))])]"
  let ?sd3 = "[(''A'', [(((2019, 12, 31), 0), Fin 100), (?m, Fin 120)])]"
  let ?files = "[(''ZZ'', Unreadable), (''YY'', NoColumn), (''XX'', Table []),
         (''A'', Table [(?m, Fin 5)])]"
  note th = absent_symbol_excluded [of ?sd "''ZZ''" ?m "[''ZZ'', ''A'', ''ZZ'']" "[]" ?sd3
      "Fin (1 / 10)" ?files]
  have n: "map_of ?sd ''ZZ'' = None" "map_of ?sd3 ''ZZ'' = None" by simp_all
  have f: "\<forall>df. (''ZZ'', Table df) \<in> set ?files \<longrightarrow> df = []" by simp
  have r: "removeAll ''ZZ'' [''ZZ'', ''A'', ''ZZ''] = [''A'']" by simp
  have e1: "for_append (sma_body ?sd ?m) [''A''] = Inr [''A'']" by code_simp
  have e2: "top_stocks ?sd3 ?m (Fin (1 / 10)) [''A''] = Inr [(''A'', Fin 2)]" by code_simp
  from th n have "sma_body ?sd ?m ''ZZ'' = Inr None" by blast
  moreover from th n(1) r e1 have "for_append (sma_body ?sd ?m) [''ZZ'', ''A'', ''ZZ''] = Inr [''A'']"
    by (simp only:)
  moreover from th n(2) r e2 have "top_stocks ?sd3 ?m (Fin (1 / 10)) [''ZZ'', ''A'', ''ZZ''] = Inr [(''A'', Fin 2)]"
    by (simp only:)
  moreover from th f have "map_of (load_stock_data with_sma ?files) ''ZZ'' = None" by blast
  ultimately show ?thesis by blast
qed

section \<open>The ranking\<close>

lemma fl_ge_trans: "fl_ge a b \<Longrightarrow> fl_ge b c \<Longrightarrow> fl_ge a c"
  by (cases a; cases b; cases c) (auto simp: fl_ge_def)

lemma fl_ge_total: "a \<noteq> NaN \<Longrightarrow> b \<noteq> NaN \<Longrightarrow> fl_lt a b \<Longrightarrow> fl_ge b a"
  by (cases a; cases b) (auto simp: fl_ge_def)

lemma fl_ge_not_lt: "a \<noteq> NaN \<Longrightarrow> b \<noteq> NaN \<Longrightarrow> \<not> fl_lt a b \<Longrightarrow> fl_ge a b"
  by (simp add: fl_ge_def)

lemma fl_ge_notna: "fl_ge a b \<Longrightarrow> a \<noteq> NaN"
  by (simp add: fl_ge_def)


lemma set_insort_desc: "set (insort_desc x xs) = insert x (set xs)"
  by (induction xs) auto

lemma length_insort_desc: "length (insort_desc x xs) = Suc (length xs)"
  by (induction xs) auto

lemma mset_insort_desc: "mset (insort_desc x xs) = add_mset x (mset xs)"
  by (induction xs) auto

lemma sorted_insort_desc:
  assumes "snd x \<noteq> NaN" "\<forall>e \<in> set xs. snd e \<noteq> NaN" "sorted_wrt by_ratio xs"
  shows "sorted_wrt by_ratio (insort_desc x xs)"
  using assms
proof (induction xs)
  case Nil
  then show ?case by simp
next
  case (Cons y ys)
  show ?case
  proof (cases "fl_lt (snd x) (snd y)")
    case True
    have "by_ratio y x" using True Cons.prems by (simp add: by_ratio_def fl_ge_total)
    moreover have "sorted_wrt by_ratio (insort_desc x ys)" using Cons by simp
    ultimately show ?thesis using True Cons.prems by (auto simp: set_insort_desc)
  next
    case False
    then have xy: "by_ratio x y" using Cons.prems by (simp add: by_ratio_def fl_ge_not_lt)
    have "\<forall>z \<in> set ys. by_ratio x z"
    proof
      fix z assume "z \<in> set ys"
      with Cons.prems have "by_ratio y z" by simp
      with xy show "by_ratio x z" unfolding by_ratio_def by (rule fl_ge_trans)
    qed
    with xy False Cons.prems show ?thesis by simp
  qed
qed

lemma set_sort_desc: "set (sort_desc xs) = set xs"
  by (induction xs) (simp_all add: sort_desc_def set_insort_desc)

lemma mset_sort_desc: "mset (sort_desc xs) = mset xs"
  by (induction xs) (simp_all add: sort_desc_def mset_insort_desc)

lemma sorted_sort_desc:
  "\<forall>e \<in> set xs. snd e \<noteq> NaN \<Longrightarrow> sorted_wrt by_ratio (sort_desc xs)"
proof (induction xs)
  case Nil
  then show ?case by (simp add: sort_desc_def)
next
  case (Cons x xs)
  then have "sorted_wrt by_ratio (sort_desc xs)" by simp
  moreover have "\<forall>e \<in> set (sort_desc xs). snd e \<noteq> NaN" using Cons.prems by (simp add: set_sort_desc)
  moreover have "snd x \<noteq> NaN" using Cons.prems by simp
  ultimately have "sorted_wrt by_ratio (insort_desc x (sort_desc xs))"
    by (intro sorted_insort_desc)
  then show ?case by (simp add: sort_desc_def)
qed

lemma rs_body_Some:
  assumes "rs_body sd m (sub_months LOOKBACK_MONTHS m) nr n = Inr (Some e)"
  shows "fst e = n \<and> fl_ge (snd e) (Fin 1) \<and> has_ratio sd m nr e"
  using assms
  by (auto simp: rs_body_def has_ratio_def Let_def
      split: option.splits list.splits sum.splits if_splits)




lemma in_set_map_filter:
  "y \<in> set (List.map_filter f xs) \<Longrightarrow> \<exists>x \<in> set xs. f x = Some y"
  by (induction xs) (auto split: option.splits)

lemma rank_cut_row_cases:
  assumes "rank_cut_row sd nifty (m, s) = Inr row"
  shows "row = empty_rank_row m
    \<or> (\<exists>c cs p ps nr ranked.
          matching_dates nifty (date_of m) = c # cs
          \<and> matching_dates nifty (date_of (sub_months LOOKBACK_MONTHS m)) = p # ps
          \<and> nifty_return_at nifty c p = Inr nr \<and> nr \<noteq> Fin 0
          \<and> top_stocks sd m nr (stocks_list s) = Inr ranked
          \<and> row = \<lparr>rank_date = date_of m, rank_stocks = format_stocks ranked\<rparr>)"
proof (cases "no_stocks s")
  case True
  with assms show ?thesis by (simp add: rank_cut_row_def)
next
  case False
  let ?cur = "matching_dates nifty (date_of m)"
  let ?past = "matching_dates nifty (date_of (sub_months LOOKBACK_MONTHS m))"
  show ?thesis
  proof (cases "?cur = [] \<or> ?past = []")
    case True
    with assms False show ?thesis by (auto simp: rank_cut_row_def Let_def)
  next
    case ne: False
    then obtain c cs p ps where cp: "?cur = c # cs" "?past = p # ps"
      by (cases ?cur; cases ?past) auto
    with assms False ne show ?thesis
      by (auto simp: rank_cut_row_def Let_def fl_eq_def split: sum.splits if_splits)
  qed
qed

lemma rank_cut_row_no_benchmark:
  assumes "matching_dates nifty (date_of m) = []
     \<or> matching_dates nifty (date_of (sub_months LOOKBACK_MONTHS m)) = []"
  shows "rank_cut_row sd nifty (m, s) = Inr (empty_rank_row m)"
  using assms by (auto simp: rank_cut_row_def Let_def)

lemma rank_cut_row_zero_return:
  assumes "matching_dates nifty (date_of m) = c # cs"
    "matching_dates nifty (date_of (sub_months LOOKBACK_MONTHS m)) = p # ps"
    "nifty_return_at nifty c p = Inr (Fin 0)"
  shows "rank_cut_row sd nifty (m, s) = Inr (empty_rank_row m)"
  using assms by (simp add: rank_cut_row_def Let_def fl_eq_def)

lemma nifty_return_at_Fin:
  assumes "loc nifty c = Inr (Fin a)" "loc nifty p = Inr (Fin b)"
  shows "nifty_return_at nifty c p = Inr (if b \<noteq> 0 then Fin ((a - b) / b) else signed_inf a)"
  using assms by (simp add: nifty_return_at_def period_return_def)

lemma top_stocks_Inr:
  assumes "top_stocks sd m nr cands = Inr ranked"
  shows "length ranked \<le> TOP_N
     \<and> (\<forall>e \<in> set ranked. fst e \<in> set cands \<and> fl_ge (snd e) (Fin 1) \<and> has_ratio sd m nr e)
     \<and> sorted_wrt by_ratio ranked"
proof -
  let ?body = "rs_body sd m (sub_months LOOKBACK_MONTHS m) nr"
  from assms obtain data where data: "for_append ?body cands = Inr data"
    and ranked: "ranked = take TOP_N (sort_desc data)"
    by (auto simp: top_stocks_def split: sum.splits)
  from for_append_Inr [OF data] have eq: "data = List.map_filter (body_result ?body) cands" by simp
  have ent: "fst e \<in> set cands \<and> fl_ge (snd e) (Fin 1) \<and> has_ratio sd m nr e" if "e \<in> set data" for e
  proof -
    from that eq in_set_map_filter [of e "body_result ?body" cands]
    obtain n where n: "n \<in> set cands" "body_result ?body n = Some e"
      by blast
    then have "?body n = Inr (Some e)"
      by (auto simp: body_result_def split: sum.splits)
    from rs_body_Some [OF this] n(1) show ?thesis by simp
  qed
  then have "\<forall>e \<in> set data. snd e \<noteq> NaN" using fl_ge_notna by blast
  then have "sorted_wrt by_ratio (sort_desc data)" by (rule sorted_sort_desc)
  then have "sorted_wrt by_ratio ranked" unfolding ranked by (rule sorted_wrt_take)
  moreover have "set ranked \<subseteq> set data"
    unfolding ranked using set_take_subset [of TOP_N "sort_desc data"] by (simp add: set_sort_desc)
  moreover have "length ranked \<le> TOP_N" unfolding ranked by simp
  ultimately show ?thesis using ent by blast
qed






text \<open>
  Claim C5.  When the benchmark has no record on the month-end's date or none on the
  look-back date, and when its return over the look-back is exactly zero, the row of that
  date is the empty row, whatever the candidates: it is a result, not an error.  The
  return is \<open>(a - b) / b\<close> for prices \<open>a\<close> now and \<open>b \<noteq> 0\<close> then.  A row that lists
  symbols was ranked with a benchmark return other than zero, the divisor of each of its
  ratios.
\<close>

theorem benchmark_skip:
  "(matching_dates nifty (date_of m) = []
      \<or> matching_dates nifty (date_of (sub_months LOOKBACK_MONTHS m)) = [] \<longrightarrow>
      rank_cut_row sd nifty (m, s) = Inr (empty_rank_row m))
   \<and> (matching_dates nifty (date_of m) = c # cs
      \<and> matching_dates nifty (date_of (sub_months LOOKBACK_MONTHS m)) = p # ps
      \<and> nifty_return_at nifty c p = Inr (Fin 0) \<longrightarrow>
      rank_cut_row sd nifty (m, s) = Inr (empty_rank_row m))
   \<and> (loc nifty c = Inr (Fin a) \<and> loc nifty p = Inr (Fin b) \<longrightarrow>
      nifty_return_at nifty c p = Inr (if b \<noteq> 0 then Fin ((a - b) / b) else signed_inf a))
   \<and> (rank_cut_row sd nifty (m, s) = Inr row \<and> rank_stocks row \<noteq> [] \<longrightarrow>
      (\<exists>c' cs' p' ps' nr ranked.
          matching_dates nifty (date_of m) = c' # cs'
          \<and> matching_dates nifty (date_of (sub_months LOOKBACK_MONTHS m)) = p' # ps'
          \<and> nifty_return_at nifty c' p' = Inr nr \<and> nr \<noteq> Fin 0
          \<and> top_stocks sd m nr (stocks_list s) = Inr ranked
          \<and> (\<forall>e \<in> set ranked. has_ratio sd m nr e)
          \<and> rank_stocks row = format_stocks ranked))"
proof (intro conjI impI)
  assume "matching_dates nifty (date_of m) = []
      \<or> matching_dates nifty (date_of (sub_months LOOKBACK_MONTHS m)) = []"
  then show "rank_cut_row sd nifty (m, s) = Inr (empty_rank_row m)"
    by (rule rank_cut_row_no_benchmark)
next
  assume "matching_dates nifty (date_of m) = c # cs
      \<and> matching_dates nifty (date_of (sub_months LOOKBACK_MONTHS m)) = p # ps
      \<and> nifty_return_at nifty c p = Inr (Fin 0)"
  then show "rank_cut_row sd nifty (m, s) = Inr (empty_rank_row m)"
    using rank_cut_row_zero_return by blast
next
  assume "loc nifty c = Inr (Fin a) \<and> loc nifty p = Inr (Fin b)"
  then show "nifty_return_at nifty c p = Inr (if b \<noteq> 0 then Fin ((a - b) / b) else signed_inf a)"
    using nifty_return_at_Fin by blast
next
  assume a: "rank_cut_row sd nifty (m, s) = Inr row \<and> rank_stocks row \<noteq> []"
  then have "row \<noteq> empty_rank_row m" by (auto simp: empty_rank_row_def)
  with a rank_cut_row_cases [of sd nifty m s row]
  obtain c' cs' p' ps' nr ranked where h:
    "matching_dates nifty (date_of m) = c' # cs'"
    "matching_dates nifty (date_of (sub_months LOOKBACK_MONTHS m)) = p' # ps'"
    "nifty_return_at nifty c' p' = Inr nr" "nr \<noteq> Fin 0"
    "top_stocks sd m nr (stocks_list s) = Inr ranked"
    "row = \<lparr>rank_date = date_of m, rank_stocks = format_stocks ranked\<rparr>"
    by blast
  from top_stocks_Inr [OF h(5)] have "\<forall>e \<in> set ranked. has_ratio sd m nr e" by blast
  with h show "\<exists>c' cs' p' ps' nr ranked.
          matching_dates nifty (date_of m) = c' # cs'
          \<and> matching_dates nifty (date_of (sub_months LOOKBACK_MONTHS m)) = p' # ps'
          \<and> nifty_return_at nifty c' p' = Inr nr \<and> nr \<noteq> Fin 0
          \<and> top_stocks sd m nr (stocks_list s) = Inr ranked
          \<and> (\<forall>e \<in> set ranked. has_ratio sd m nr e)
          \<and> rank_stocks row = format_stocks ranked"
    by (intro exI [of _ c'] exI [of _ cs'] exI [of _ p'] exI [of _ ps'] exI [of _ nr]
        exI [of _ ranked]) simp
qed

theorem benchmark_skip_witness:
  "rank_cut_row
     [(''A'', [(((2019, 12, 31), 0), Fin 100), (((2020, 1, 31), 0), Fin 120)])]
     [(((2019, 12, 31), 0), Fin 100), (((2020, 1, 31), 0), Fin 100)]
     (((2020, 1, 31), 0), Some ''A'')
     = Inr \<lparr>rank_date = (2020, 1, 31), rank_stocks = []\<rparr>
   \<and> rank_cut_row
     [(''A'', [(((2019, 12, 31), 0), Fin 100), (((2020, 1, 31), 0), Fin 120)])]
     [(((2019, 12, 30), 0), Fin 100), (((2020, 1, 31), 0), Fin 110)]
     (((2020, 1, 31), 0), Some ''A'')
     = Inr \<lparr>rank_date = (2020, 1, 31), rank_stocks = []\<rparr>"
proof -
  let ?d0 = "((2019::int, 12::nat, 31::nat), 0::nat)"
  let ?d1 = "((2020::int, 1::nat, 31::nat), 0::nat)"
  let ?sd = "[(''A'', [(?d0, Fin 100), (?d1, Fin 120)])]"
  let ?flat = "[(?d0, Fin 100), (?d1, Fin 100)]"
  let ?gap = "[(((2019, 12, 30), 0), Fin 100), (?d1, Fin 110)]"
  have e: "empty_rank_row ?d1 = \<lparr>rank_date = (2020, 1, 31), rank_stocks = []\<rparr>"
    by (simp add: empty_rank_row_def date_of_def)
  have "matching_dates ?flat (date_of ?d1) = [?d1]
      \<and> matching_dates ?flat (date_of (sub_months LOOKBACK_MONTHS ?d1)) = [?d0]
      \<and> nifty_return_at ?flat ?d1 ?d0 = Inr (Fin 0)"
    by code_simp
  with benchmark_skip [of ?flat ?d1 ?sd "Some ''A''" ?d1 "[]" ?d0 "[]"]
  have a: "rank_cut_row ?sd ?flat (?d1, Some ''A'') = Inr (empty_rank_row ?d1)" by blast
  have "matching_dates ?gap (date_of (sub_months LOOKBACK_MONTHS ?d1)) = []"
    by code_simp
  with benchmark_skip [of ?gap ?d1 ?sd "Some ''A''"]
  have b: "rank_cut_row ?sd ?gap (?d1, Some ''A'') = Inr (empty_rank_row ?d1)" by blast
  from a b e show ?thesis by simp
qed

section \<open>Independence of the iteration order\<close>

lemma alist_update_new: "k \<notin> fst ` set al \<Longrightarrow> AList.update k v al = al @ [(k, v)]"
  by (induction al) auto

lemma load_file_entry:
  assumes "fst f0 \<notin> fst ` set acc"
  shows "load_file derive acc f0
    = acc @ (case store_entry derive f0 of None \<Rightarrow> [] | Some e \<Rightarrow> [e])"
proof (cases f0)
  case (Pair n f)
  with assms have "n \<notin> fst ` set acc" by simp
  then show ?thesis using Pair
    by (cases f) (simp_all add: load_file_def store_entry_def alist_update_new)
qed

lemma store_entry_key: "store_entry derive f0 = Some e \<Longrightarrow> fst e = fst f0"
  by (cases "snd f0") (auto simp: store_entry_def split: if_splits)

lemma foldl_load_file_distinct:
  assumes "distinct (map fst fs)" "fst ` set acc \<inter> fst ` set fs = {}"
  shows "foldl (load_file derive) acc fs = acc @ List.map_filter (store_entry derive) fs"
  using assms
proof (induction fs arbitrary: acc)
  case Nil
  then show ?case by simp
next
  case (Cons f0 fs)
  let ?new = "case store_entry derive f0 of None \<Rightarrow> [] | Some e \<Rightarrow> [e]"
  from Cons.prems(2) have ins: "fst ` set acc \<inter> insert (fst f0) (fst ` set fs) = {}" by simp
  from ins have notin: "fst f0 \<notin> fst ` set acc" by blast
  from ins have disj0: "fst ` set acc \<inter> fst ` set fs = {}" by blast
  have step: "load_file derive acc f0 = acc @ ?new" using notin by (rule load_file_entry)
  have keys: "fst ` set ?new \<subseteq> {fst f0}"
  proof (cases "store_entry derive f0")
    case None
    then show ?thesis by simp
  next
    case (Some e)
    with store_entry_key [OF Some] show ?thesis by simp
  qed
  have k: "fst f0 \<notin> fst ` set fs" using Cons.prems(1) by simp
  define A where "A = fst ` set acc"
  define N where "N = fst ` set ?new"
  define F where "F = fst ` set fs"
  have "N \<subseteq> {fst f0}" "fst f0 \<notin> F" "A \<inter> F = {}"
    unfolding A_def N_def F_def using keys k disj0 by - assumption+
  then have "(A \<union> N) \<inter> F = {}" by blast
  moreover have "fst ` set (acc @ ?new) = A \<union> N"
    by (simp only: A_def N_def set_append image_Un)
  ultimately have disj: "fst ` set (acc @ ?new) \<inter> fst ` set fs = {}"
    by (simp only: F_def)
  have d: "distinct (map fst fs)" using Cons.prems(1) by simp
  have "foldl (load_file derive) acc (f0 # fs) = foldl (load_file derive) (acc @ ?new) fs"
    by (simp only: foldl_Cons step)
  also have "\<dots> = (acc @ ?new) @ List.map_filter (store_entry derive) fs"
    using d disj by (rule Cons.IH)
  also have "\<dots> = acc @ List.map_filter (store_entry derive) (f0 # fs)"
    by (cases "store_entry derive f0") simp_all
  finally show ?case .
qed

lemma stock_files_distinct: "distinct (map fst fs) \<Longrightarrow> distinct (map fst (stock_files fs))"
  by (simp add: stock_files_def distinct_map_filter)

lemma load_stock_data_distinct:
  assumes "distinct (map fst files)"
  shows "load_stock_data derive files = List.map_filter (store_entry derive) (stock_files files)"
  using foldl_load_file_distinct [of "stock_files files" "[]" derive]
    stock_files_distinct [OF assms]
  by (simp add: load_stock_data_def)

lemma mset_map_filter:
  "mset (List.map_filter f xs) = image_mset (the \<circ> f) (filter_mset (\<lambda>x. f x \<noteq> None) (mset xs))"
  by (simp add: List.map_filter_def)

lemma map_fst_map_filter_entry:
  "map fst (List.map_filter (store_entry derive) fs)
     = map fst (filter (\<lambda>x. store_entry derive x \<noteq> None) fs)"
  by (induction fs) (auto split: option.splits dest: store_entry_key)

lemma load_stock_data_perm:
  assumes "distinct (map fst files)" "mset files' = mset files"
  shows "mset (load_stock_data derive files') = mset (load_stock_data derive files)
    \<and> distinct (map fst (load_stock_data derive files))"
proof -
  have "mset (map fst files') = mset (map fst files)" using assms(2) by (metis mset_map)
  with assms(1) have d': "distinct (map fst files')" by (metis mset_eq_imp_distinct_iff)
  have "mset (stock_files files') = mset (stock_files files)"
    using assms(2) by (simp add: stock_files_def)
  then have "mset (List.map_filter (store_entry derive) (stock_files files'))
      = mset (List.map_filter (store_entry derive) (stock_files files))"
    by (simp add: mset_map_filter)
  moreover have "distinct (map fst (List.map_filter (store_entry derive) (stock_files files)))"
    using stock_files_distinct [OF assms(1)]
    by (simp add: map_fst_map_filter_entry distinct_map_filter)
  ultimately show ?thesis
    by (simp add: load_stock_data_distinct assms(1) d')
qed

lemma store_perm:
  assumes "mset sd' = mset sd" "distinct (map fst sd)"
  shows "map_of sd' = map_of sd \<and> set sd' = set sd \<and> (sd' = [] \<longleftrightarrow> sd = [])"
proof -
  have s: "set sd' = set sd" using assms(1) by (rule mset_eq_setD)
  have "mset (map fst sd') = mset (map fst sd)" using assms(1) by (metis mset_map)
  with assms(2) have "distinct (map fst sd')" by (metis mset_eq_imp_distinct_iff)
  with assms(2) s have "map_of sd' = map_of sd" by (simp add: map_of_inject_set)
  moreover have "sd' = [] \<longleftrightarrow> sd = []" using s by (metis set_empty)
  ultimately show ?thesis using s by simp
qed

end
